theory Spec2Isabelle
  imports Complex_Main
begin

section \<open>Numbers\<close>

text \<open>
  The tables of \<^verbatim>\<open>solver_utils.py\<close> hold Python floats, IEEE 754 binary64 values,
  and the code itself writes \<^verbatim>\<open>float('-inf')\<close> as the start of every running
  maximum. A float is NaN, an infinity, or \<open>Fin x\<close> for the real number \<open>x\<close> it
  denotes. The two zeros are one value: the code never divides and never prints, so
  it cannot tell them apart. Python's integers \<^verbatim>\<open>0\<close> and \<^verbatim>\<open>1\<close>, where the code
  mixes them with floats, are the floats 0 and 1.
\<close>

datatype pyfloat = NaN | NegInf | Fin real | PosInf

text \<open>
  Rounding to the nearest double, ties to the even significand. The magnitude is
  written as \<open>m * 2 ^ e\<close> with \<open>2 ^ 52 \<le> m < 2 ^ 53\<close>, or with \<open>e = -1074\<close> and a smaller
  \<open>m\<close> in the subnormal range; \<open>m\<close> is rounded to an integer; a result of \<open>2 ^ 1024\<close> or
  more is an infinity.
\<close>

function norm_up :: "real \<Rightarrow> int \<Rightarrow> real \<times> int" where
  "norm_up m e = (if 9007199254740992 \<le> m then norm_up (m / 2) (e + 1) else (m, e))"
  by pat_completeness auto
termination
proof (relation "measure (\<lambda>(m, e). nat \<lceil>m\<rceil>)")
  show "wf (measure (\<lambda>(m, e). nat \<lceil>m\<rceil>))" by simp
next
  fix m :: real and e :: int
  assume big: "9007199254740992 \<le> m"
  have "\<lceil>m / 2\<rceil> < \<lceil>m\<rceil>"
  proof -
    have "real_of_int \<lceil>m / 2\<rceil> < m / 2 + 1" by linarith
    also have "\<dots> \<le> m" using big by simp
    also have "\<dots> \<le> real_of_int \<lceil>m\<rceil>" by linarith
    finally show ?thesis by linarith
  qed
  moreover have "0 < \<lceil>m\<rceil>" using big by linarith
  ultimately show "((m / 2, e + 1), (m, e)) \<in> measure (\<lambda>(m, e). nat \<lceil>m\<rceil>)" by simp
qed

function norm_down :: "real \<Rightarrow> int \<Rightarrow> real \<times> int" where
  "norm_down m e =
     (if m < 4503599627370496 \<and> - 1074 < e then norm_down (m * 2) (e - 1) else (m, e))"
  by pat_completeness auto
termination
  by (relation "measure (\<lambda>(m, e). nat (e + 1074))") auto

declare norm_up.simps [simp del] norm_down.simps [simp del]

definition round_half_even :: "real \<Rightarrow> int" where
  "round_half_even m =
     (let f = \<lfloor>m\<rfloor>; d = m - of_int f
      in if d < 1 / 2 then f else if 1 / 2 < d then f + 1 else if even f then f else f + 1)"

definition pow2 :: "int \<Rightarrow> real" where
  "pow2 e = (if 0 \<le> e then 2 ^ nat e else 1 / 2 ^ nat (- e))"

definition round_double :: "real \<Rightarrow> pyfloat" where
  "round_double x =
     (case norm_up \<bar>x\<bar> 0 of (m1, e1) \<Rightarrow>
       (case norm_down m1 e1 of (m, e) \<Rightarrow>
          let r = of_int (round_half_even m) * pow2 e
          in if 2 ^ 1024 \<le> r then (if 0 < x then PosInf else NegInf)
             else Fin (if 0 \<le> x then r else - r)))"

text \<open>
  Arithmetic: the exact result of two finite operands is rounded, as the hardware does;
  the special values follow IEEE 754 as Python does (\<open>inf - inf\<close> and \<open>0 * inf\<close> are
  NaN). Negation and absolute value are exact. A literal such as \<^verbatim>\<open>0.8\<close> is the
  double nearest to it, \<open>round_double 0.8\<close>.
\<close>

fun fl_neg :: "pyfloat \<Rightarrow> pyfloat" where
  "fl_neg NaN = NaN"
| "fl_neg NegInf = PosInf"
| "fl_neg PosInf = NegInf"
| "fl_neg (Fin x) = Fin (- x)"

fun fl_add :: "pyfloat \<Rightarrow> pyfloat \<Rightarrow> pyfloat" where
  "fl_add (Fin x) (Fin y) = round_double (x + y)"
| "fl_add NaN _ = NaN"
| "fl_add _ NaN = NaN"
| "fl_add PosInf NegInf = NaN"
| "fl_add NegInf PosInf = NaN"
| "fl_add PosInf _ = PosInf"
| "fl_add _ PosInf = PosInf"
| "fl_add NegInf _ = NegInf"
| "fl_add _ NegInf = NegInf"

definition fl_sub :: "pyfloat \<Rightarrow> pyfloat \<Rightarrow> pyfloat" where
  "fl_sub a b = fl_add a (fl_neg b)"

fun fl_mul :: "pyfloat \<Rightarrow> pyfloat \<Rightarrow> pyfloat" where
  "fl_mul (Fin x) (Fin y) = round_double (x * y)"
| "fl_mul NaN _ = NaN"
| "fl_mul _ NaN = NaN"
| "fl_mul (Fin x) PosInf = (if x = 0 then NaN else if 0 < x then PosInf else NegInf)"
| "fl_mul (Fin x) NegInf = (if x = 0 then NaN else if 0 < x then NegInf else PosInf)"
| "fl_mul PosInf (Fin y) = (if y = 0 then NaN else if 0 < y then PosInf else NegInf)"
| "fl_mul NegInf (Fin y) = (if y = 0 then NaN else if 0 < y then NegInf else PosInf)"
| "fl_mul PosInf PosInf = PosInf"
| "fl_mul NegInf NegInf = PosInf"
| "fl_mul PosInf NegInf = NegInf"
| "fl_mul NegInf PosInf = NegInf"

fun fl_abs :: "pyfloat \<Rightarrow> pyfloat" where
  "fl_abs NaN = NaN"
| "fl_abs NegInf = PosInf"
| "fl_abs PosInf = PosInf"
| "fl_abs (Fin x) = Fin \<bar>x\<bar>"

text \<open>
  A comparison with NaN is false. \<open>fl_gt a b\<close> is Python's \<^verbatim>\<open>a > b\<close>, \<open>fl_eq a b\<close> is \<^verbatim>\<open>a == b\<close>.
\<close>

fun fl_gt :: "pyfloat \<Rightarrow> pyfloat \<Rightarrow> bool" where
  "fl_gt (Fin x) (Fin y) = (y < x)"
| "fl_gt NaN _ = False"
| "fl_gt _ NaN = False"
| "fl_gt NegInf _ = False"
| "fl_gt _ NegInf = True"
| "fl_gt _ PosInf = False"
| "fl_gt PosInf _ = True"

definition fl_eq :: "pyfloat \<Rightarrow> pyfloat \<Rightarrow> bool" where
  "fl_eq a b = (a \<noteq> NaN \<and> a = b)"

text \<open>
  The builtin \<^verbatim>\<open>max\<close> keeps its first argument and replaces it by a later one only
  when that one compares greater; on an empty iterable it raises \<^verbatim>\<open>ValueError\<close>.
\<close>

definition py_max2 :: "pyfloat \<Rightarrow> pyfloat \<Rightarrow> pyfloat" where
  "py_max2 a b = (if fl_gt b a then b else a)"

datatype error = KeyError | ValueError

definition py_max :: "pyfloat list \<Rightarrow> error + pyfloat" where
  "py_max xs = (case xs of [] \<Rightarrow> Inl ValueError | x # rest \<Rightarrow> Inr (foldl py_max2 x rest))"

section \<open>Dictionaries\<close>

text \<open>
  A Python \<^verbatim>\<open>dict\<close> is a list of entries in insertion order: assigning to a key
  that is present replaces its value in place, assigning to a new key appends it, and
  iterating visits the keys in list order. \<^verbatim>\<open>d[k]\<close> on an absent key raises
  \<^verbatim>\<open>KeyError\<close>, which every caller below turns into \<open>Inl KeyError\<close>.
\<close>

type_synonym ('k, 'v) dict = "('k \<times> 'v) list"

definition dict_get :: "('k, 'v) dict \<Rightarrow> 'k \<Rightarrow> 'v option" where
  "dict_get d k = map_of d k"

fun dict_set :: "('k, 'v) dict \<Rightarrow> 'k \<Rightarrow> 'v \<Rightarrow> ('k, 'v) dict" where
  "dict_set [] k v = [(k, v)]"
| "dict_set ((k', v') # d) k v = (if k' = k then (k, v) # d else (k', v') # dict_set d k v)"

type_synonym 's VTable = "('s, pyfloat) dict"
type_synonym ('s, 'a) QTable = "('s \<times> 'a, pyfloat) dict"
type_synonym ('s, 'a) Policy = "('s, 'a option) dict"

section \<open>The MDP provider\<close>

text \<open>
  The module \<^verbatim>\<open>toh_mdp\<close> is not part of the sources; the solver reads six members
  of the MDP object, which are taken as the fields of a record. \<^verbatim>\<open>step\<close> and
  \<^verbatim>\<open>reward\<close> are deterministic functions, \<^verbatim>\<open>nonterminal_states\<close> and
  \<^verbatim>\<open>actions\<close> are iterated in a fixed order.
\<close>

record Config =
  gamma :: pyfloat

record ('s, 'a) TohMdp =
  nonterminal_states :: "'s list"
  actions :: "'a list"
  step :: "'s \<Rightarrow> 'a \<Rightarrow> 's \<times> pyfloat"
  reward :: "'s \<Rightarrow> 'a \<Rightarrow> 's \<Rightarrow> pyfloat"
  is_goal :: "'s \<Rightarrow> bool"
  config :: Config

section \<open>Value iteration\<close>

text \<open>
  \<^verbatim>\<open>value_iteration\<close> copies its argument, creates a second dictionary and assigns
  into both. Which object an assignment reaches is the point of two of the properties
  below, so the dictionaries live in a store and the function handles references:
  a reference is an index into the store, allocation appends a new object.
\<close>

record ('s, 'a) store =
  vtables :: "'s VTable list"
  qtables :: "('s, 'a) QTable list"

text \<open>
  The inner loop (lines 37 to 40), for the remaining actions. The reward returned by
  \<^verbatim>\<open>mdp.step\<close> is bound and never used; the value is read from \<^verbatim>\<open>new_v_table\<close>.
\<close>

fun vi_actions ::
  "('s, 'a) TohMdp \<Rightarrow> nat \<Rightarrow> nat \<Rightarrow> 's \<Rightarrow> 'a list \<Rightarrow> ('s, 'a) store \<Rightarrow> error + ('s, 'a) store"
where
  "vi_actions mdp new_v_table q_table state [] st = Inr st"
| "vi_actions mdp new_v_table q_table state (action # rest) st =
     (case step mdp state action of (next_state, r) \<Rightarrow>
       (case dict_get (vtables st ! new_v_table) next_state of
          None \<Rightarrow> Inl KeyError
        | Some v \<Rightarrow>
            let q_value = fl_mul (round_double 0.8) (fl_add (reward mdp state action next_state) v)
            in vi_actions mdp new_v_table q_table state rest
                 (st\<lparr>qtables := (qtables st)
                       [q_table := dict_set (qtables st ! q_table) (state, action) q_value]\<rparr>)))"

text \<open>The generator of line 43: the looked-up Q-values of the state, in action order.\<close>

fun q_row :: "('s, 'a) QTable \<Rightarrow> 's \<Rightarrow> 'a list \<Rightarrow> error + pyfloat list" where
  "q_row q state [] = Inr []"
| "q_row q state (action # rest) =
     (case dict_get q (state, action) of
        None \<Rightarrow> Inl KeyError
      | Some x \<Rightarrow> (case q_row q state rest of Inl e \<Rightarrow> Inl e | Inr xs \<Rightarrow> Inr (x # xs)))"

text \<open>The outer loop (lines 35 to 46), carrying the store and \<^verbatim>\<open>max_delta\<close>.\<close>

fun vi_states ::
  "('s, 'a) TohMdp \<Rightarrow> nat \<Rightarrow> nat \<Rightarrow> nat \<Rightarrow> 's list \<Rightarrow> ('s, 'a) store \<times> pyfloat \<Rightarrow>
   error + ('s, 'a) store \<times> pyfloat"
where
  "vi_states mdp v_table new_v_table q_table [] (st, max_delta) = Inr (st, max_delta)"
| "vi_states mdp v_table new_v_table q_table (state # rest) (st, max_delta) =
     (case vi_actions mdp new_v_table q_table state (actions mdp) st of
        Inl e \<Rightarrow> Inl e
      | Inr st1 \<Rightarrow>
         (case q_row (qtables st1 ! q_table) state (actions mdp) of
            Inl e \<Rightarrow> Inl e
          | Inr row \<Rightarrow>
             (case py_max row of
                Inl e \<Rightarrow> Inl e
              | Inr best \<Rightarrow>
                 let st2 = st1\<lparr>vtables := (vtables st1)
                             [new_v_table := dict_set (vtables st1 ! new_v_table) state best]\<rparr>
                 in (case dict_get (vtables st2 ! new_v_table) state of
                       None \<Rightarrow> Inl KeyError
                     | Some new_v \<Rightarrow>
                        (case dict_get (vtables st2 ! v_table) state of
                           None \<Rightarrow> Inl KeyError
                         | Some old_v \<Rightarrow>
                            vi_states mdp v_table new_v_table q_table rest
                              (st2, py_max2 max_delta (fl_abs (fl_sub new_v old_v))))))))"

text \<open>
  The function itself: \<^verbatim>\<open>v_table.copy()\<close> allocates a vtable with the entries of
  the argument, \<^verbatim>\<open>{}\<close> allocates an empty qtable; the result is the store with the
  two references and \<^verbatim>\<open>max_delta\<close>.
\<close>

definition value_iteration ::
  "('s, 'a) TohMdp \<Rightarrow> ('s, 'a) store \<Rightarrow> nat \<Rightarrow> error + ('s, 'a) store \<times> nat \<times> nat \<times> pyfloat"
where
  "value_iteration mdp st v_table =
     (let new_v_table = length (vtables st);
          st1 = st\<lparr>vtables := vtables st @ [vtables st ! v_table]\<rparr>;
          q_table = length (qtables st1);
          st2 = st1\<lparr>qtables := qtables st1 @ [[]]\<rparr>
      in (case vi_states mdp v_table new_v_table q_table (nonterminal_states mdp) (st2, Fin 0) of
            Inl e \<Rightarrow> Inl e
          | Inr (st3, max_delta) \<Rightarrow> Inr (st3, new_v_table, q_table, max_delta)))"

text \<open>
  A caller that applies \<^verbatim>\<open>value_iteration\<close> \<open>n\<close> times, each time to the table the
  previous call returned.
\<close>

fun value_iteration_times ::
  "nat \<Rightarrow> ('s, 'a) TohMdp \<Rightarrow> ('s, 'a) store \<Rightarrow> nat \<Rightarrow> error + ('s, 'a) store \<times> nat"
where
  "value_iteration_times 0 mdp st v_table = Inr (st, v_table)"
| "value_iteration_times (Suc n) mdp st v_table =
     (case value_iteration mdp st v_table of
        Inl e \<Rightarrow> Inl e
      | Inr (st1, new_v_table, q_table, max_delta) \<Rightarrow>
          value_iteration_times n mdp st1 new_v_table)"

section \<open>Policy extraction\<close>

text \<open>
  \<^verbatim>\<open>extract_policy\<close> is handed a reference to the Q-table; it creates one
  dictionary, the policy, and assigns to it. The store of the previous section is
  extended by the policies. The inner loop carries \<^verbatim>\<open>best_action\<close> (Python's
  \<^verbatim>\<open>None\<close> is \<open>None\<close>) and \<^verbatim>\<open>best_q_value\<close>, and reads the table through the
  reference at every step.
\<close>

record ('s, 'a) pstore = "('s, 'a) store" +
  policies :: "('s, 'a) Policy list"

fun ep_actions ::
  "('s, 'a) pstore \<Rightarrow> nat \<Rightarrow> 's \<Rightarrow> 'a list \<Rightarrow> 'a option \<times> pyfloat \<Rightarrow> 'a option \<times> pyfloat"
where
  "ep_actions st q_table state [] (best_action, best_q_value) = (best_action, best_q_value)"
| "ep_actions st q_table state (action # rest) (best_action, best_q_value) =
     (case dict_get (qtables st ! q_table) (state, action) of
        None \<Rightarrow> ep_actions st q_table state rest (best_action, best_q_value)
      | Some q_value \<Rightarrow>
          if fl_gt q_value best_q_value
          then ep_actions st q_table state rest (Some action, q_value)
          else ep_actions st q_table state rest (best_action, best_q_value))"

fun ep_states ::
  "('s, 'a) TohMdp \<Rightarrow> nat \<Rightarrow> nat \<Rightarrow> 's list \<Rightarrow> ('s, 'a) pstore \<Rightarrow> ('s, 'a) pstore"
where
  "ep_states mdp q_table policy [] st = st"
| "ep_states mdp q_table policy (state # rest) st =
     (case ep_actions st q_table state (actions mdp) (None, NegInf) of
        (best_action, best_q_value) \<Rightarrow>
          ep_states mdp q_table policy rest
            (st\<lparr>policies := (policies st)
                  [policy := dict_set (policies st ! policy) state best_action]\<rparr>))"

text \<open>The result is the store after the call and the reference to the new policy.\<close>

definition extract_policy ::
  "('s, 'a) TohMdp \<Rightarrow> ('s, 'a) pstore \<Rightarrow> nat \<Rightarrow> ('s, 'a) pstore \<times> nat"
where
  "extract_policy mdp st q_table =
     (let policy = length (policies st);
          st1 = st\<lparr>policies := policies st @ [[]]\<rparr>
      in (ep_states mdp q_table policy (nonterminal_states mdp) st1, policy))"

section \<open>The Q-learning update\<close>

text \<open>
  The loop of lines 101 to 104 visits the keys of \<^verbatim>\<open>q_table\<close> in order and reads
  the value stored with each, that is, it visits the entries.
\<close>

fun max_next :: "('s, 'a) QTable \<Rightarrow> 's \<Rightarrow> pyfloat \<Rightarrow> pyfloat" where
  "max_next [] next_state maxQ = maxQ"
| "max_next (((s, a), x) # rest) next_state maxQ =
     (if s = next_state
      then (if fl_gt x maxQ then max_next rest next_state x else max_next rest next_state maxQ)
      else max_next rest next_state maxQ)"

text \<open>
  Line 109 reads \<^verbatim>\<open>q_table[state, action]\<close> before it assigns to it. The function
  mutates its argument; the model returns the updated table.
\<close>

definition q_update ::
  "('s, 'a) TohMdp \<Rightarrow> ('s, 'a) QTable \<Rightarrow> 's \<times> 'a \<times> pyfloat \<times> 's \<Rightarrow> pyfloat \<Rightarrow>
   error + ('s, 'a) QTable"
where
  "q_update mdp q_table transition alpha =
     (case transition of (state, action, r, next_state) \<Rightarrow>
        let maxQ = (if \<not> is_goal mdp state then max_next q_table next_state NegInf else Fin 0);
            sample = fl_add r (fl_mul (gamma (config mdp)) maxQ)
        in (case dict_get q_table (state, action) of
              None \<Rightarrow> Inl KeyError
            | Some old \<Rightarrow>
                Inr (dict_set q_table (state, action)
                       (fl_add (fl_mul (fl_sub (Fin 1) alpha) old) (fl_mul alpha sample)))))"

section \<open>Value table from a Q-table\<close>

fun ev_entries :: "('s, 'a) QTable \<Rightarrow> 's VTable \<Rightarrow> 's VTable" where
  "ev_entries [] v_table = v_table"
| "ev_entries (((s, a), x) # rest) v_table =
     (let v1 = (if dict_get v_table s = None then dict_set v_table s NegInf else v_table)
      in (case dict_get v1 s of
            None \<Rightarrow> ev_entries rest v1
          | Some cur \<Rightarrow>
              if fl_gt x cur then ev_entries rest (dict_set v1 s x) else ev_entries rest v1))"

definition extract_v_table :: "('s, 'a) TohMdp \<Rightarrow> ('s, 'a) QTable \<Rightarrow> 's VTable" where
  "extract_v_table mdp q_table = ev_entries q_table []"

section \<open>Action selection\<close>

text \<open>The first loop (lines 167 to 171) and the second (lines 173 to 176).\<close>

fun cna_best ::
  "('s, 'a) QTable \<Rightarrow> 's \<Rightarrow> 'a option \<times> pyfloat \<Rightarrow> 'a option \<times> pyfloat"
where
  "cna_best [] state (best_action, best_Q) = (best_action, best_Q)"
| "cna_best (((s, a), x) # rest) state (best_action, best_Q) =
     (if s = state
      then (if fl_gt x best_Q then cna_best rest state (Some a, x)
            else cna_best rest state (best_action, best_Q))
      else cna_best rest state (best_action, best_Q))"

fun cna_ties :: "('s, 'a) QTable \<Rightarrow> 's \<Rightarrow> pyfloat \<Rightarrow> 'a option list \<Rightarrow> 'a option list" where
  "cna_ties [] state best_Q best = best"
| "cna_ties (((s, a), x) # rest) state best_Q best =
     (if s = state
      then (if fl_eq x best_Q then cna_ties rest state best_Q (best @ [Some a])
            else cna_ties rest state best_Q best)
      else cna_ties rest state best_Q best)"

definition choose_next_action ::
  "('s, 'a) TohMdp \<Rightarrow> 's \<Rightarrow> pyfloat \<Rightarrow> ('s, 'a) QTable \<Rightarrow>
   ('a option list \<Rightarrow> pyfloat \<Rightarrow> 'r) \<Rightarrow> 'r"
where
  "choose_next_action mdp state epsilon q_table epsilon_greedy =
     (case cna_best q_table state (None, NegInf) of (best_action, best_Q) \<Rightarrow>
        epsilon_greedy (cna_ties q_table state best_Q ([] @ [best_action])) epsilon)"

section \<open>Schedules\<close>

text \<open>
  \<^verbatim>\<open>custom_epsilon\<close> returns its argument, a Python integer. The body of
  \<^verbatim>\<open>custom_alpha\<close> is its docstring alone, so a call returns \<^verbatim>\<open>None\<close>.
\<close>

definition custom_epsilon :: "int \<Rightarrow> int" where
  "custom_epsilon n_step = n_step"

definition custom_alpha :: "int \<Rightarrow> pyfloat option" where
  "custom_alpha n_step = None"

section \<open>Example MDPs\<close>

datatype toy_state = A | B | T
datatype toy_action = Move | Stay

text \<open>
  The two-state scenario of the specification: \<open>step(A, move) = (T, 10)\<close>,
  \<open>reward(A, move, T) = 10\<close>, with the discount factor left open.
\<close>

definition toy_mdp :: "pyfloat \<Rightarrow> (toy_state, toy_action) TohMdp" where
  "toy_mdp g =
     \<lparr>nonterminal_states = [A], actions = [Move],
      step = (\<lambda>s a. (T, Fin 10)), reward = (\<lambda>s a s'. Fin 10),
      is_goal = (\<lambda>s. False), config = \<lparr>gamma = g\<rparr>\<rparr>"

definition toy_store :: "(toy_state, toy_action) store" where
  "toy_store = \<lparr>vtables = [[(A, Fin 0), (T, Fin 0)]], qtables = []\<rparr>"

text \<open>A chain \<open>B \<rightarrow> A \<rightarrow> T\<close>: only the move out of \<open>A\<close> is rewarded.\<close>

definition chain_mdp :: "(toy_state, toy_action) TohMdp" where
  "chain_mdp =
     \<lparr>nonterminal_states = [A, B], actions = [Move],
      step = (\<lambda>s a. if s = A then (T, Fin 10) else (A, Fin 0)),
      reward = (\<lambda>s a s'. if s = A then Fin 10 else Fin 0),
      is_goal = (\<lambda>s. s = A), config = \<lparr>gamma = round_double 0.8\<rparr>\<rparr>"

definition chain_store :: "(toy_state, toy_action) store" where
  "chain_store = \<lparr>vtables = [[(A, Fin 0), (B, Fin 0), (T, Fin 0)]], qtables = []\<rparr>"

text \<open>
  Two actions with tied values: a Q-table over \<open>A\<close> and \<open>B\<close> in which both actions of
  \<open>A\<close> are worth 3 and one entry of \<open>B\<close> is \<open>-inf\<close>, and a store that holds this table
  and one value table.
\<close>

definition tie_mdp :: "(toy_state, toy_action) TohMdp" where
  "tie_mdp =
     \<lparr>nonterminal_states = [A, B], actions = [Move, Stay],
      step = (\<lambda>s a. if a = Stay then (s, Fin 0) else if s = A then (T, Fin 10) else (A, Fin 0)),
      reward = (\<lambda>s a s'. if s' = T then Fin 10 else Fin 0),
      is_goal = (\<lambda>s. s = A), config = \<lparr>gamma = round_double 0.8\<rparr>\<rparr>"

definition tie_q :: "(toy_state, toy_action) QTable" where
  "tie_q = [((A, Move), Fin 3), ((B, Move), Fin 1), ((A, Stay), Fin 3), ((B, Stay), NegInf)]"

definition tie_store :: "(toy_state, toy_action) pstore" where
  "tie_store = \<lparr>vtables = [[(A, Fin 0), (T, Fin 0)]], qtables = [tie_q], policies = []\<rparr>"

text \<open>A store whose only Q-table has the single entry \<open>Q(A, move) = -inf\<close>.\<close>

definition neg_inf_store :: "(toy_state, toy_action) pstore" where
  "neg_inf_store = \<lparr>vtables = [], qtables = [[((A, Move), NegInf)]], policies = []\<rparr>"

section \<open>Evaluating the rounding\<close>

text \<open>The equations that compute \<open>round_double\<close> on a given rational number.\<close>

lemmas round_eval =
  round_double_def norm_up.simps norm_down.simps round_half_even_def pow2_def Let_def

section \<open>Facts about comparison and the running maximum\<close>

text \<open>
  On the values that are not NaN, \<open>fl_gt\<close> is a strict linear order with \<open>NegInf\<close>
  least; NaN is greater than nothing and nothing is greater than NaN.
\<close>

lemma fl_gt_irrefl: "\<not> fl_gt x x"
  by (cases x) auto

lemma fl_gt_trans: "fl_gt c b \<Longrightarrow> fl_gt b a \<Longrightarrow> fl_gt c a"
  by (cases a; cases b; cases c) auto

lemma fl_gt_asym: "fl_gt a b \<Longrightarrow> \<not> fl_gt b a"
  by (cases a; cases b) auto

lemma fl_not_gt_trans: "fl_gt c b \<Longrightarrow> \<not> fl_gt x b \<Longrightarrow> \<not> fl_gt x c"
  by (cases x; cases b; cases c) auto

lemma fl_not_gt_NegInf: "\<not> fl_gt x NegInf \<Longrightarrow> x = NegInf \<or> x = NaN"
  by (cases x) auto

lemma foldl_py_max2_mono: "foldl py_max2 i xs = i \<or> fl_gt (foldl py_max2 i xs) i"
proof (induction xs arbitrary: i)
  case Nil
  then show ?case by simp
next
  case (Cons x xs)
  from Cons.IH [of "py_max2 i x"] show ?case
    by (auto simp: py_max2_def dest: fl_gt_trans split: if_splits)
qed

lemma foldl_py_max2_mem: "foldl py_max2 i xs = i \<or> foldl py_max2 i xs \<in> set xs"
proof (induction xs arbitrary: i)
  case Nil
  then show ?case by simp
next
  case (Cons x xs)
  from Cons.IH [of "py_max2 i x"] show ?case
    by (auto simp: py_max2_def split: if_splits)
qed

lemma foldl_py_max2_upper: "x \<in> set xs \<Longrightarrow> \<not> fl_gt x (foldl py_max2 i xs)"
proof (induction xs arbitrary: i)
  case Nil
  then show ?case by simp
next
  case (Cons y ys)
  show ?case
  proof (cases "x \<in> set ys")
    case True
    with Cons.IH show ?thesis by simp
  next
    case False
    with Cons.prems have xy: "x = y" by simp
    have "py_max2 i y = y \<or> (py_max2 i y = i \<and> \<not> fl_gt y i)"
      by (simp add: py_max2_def)
    with foldl_py_max2_mono [of "py_max2 i y" ys] show ?thesis
      unfolding xy
      by (auto simp: fl_gt_irrefl dest: fl_gt_asym fl_not_gt_trans)
  qed
qed

lemma foldl_py_max2_not_nan: "i \<noteq> NaN \<Longrightarrow> foldl py_max2 i xs \<noteq> NaN"
proof (induction xs arbitrary: i)
  case Nil
  then show ?case by simp
next
  case (Cons x xs)
  have "py_max2 i x \<noteq> NaN"
    using Cons.prems by (cases x) (auto simp: py_max2_def)
  then show ?case by (simp add: Cons.IH)
qed

section \<open>Facts about the dictionary operations\<close>

lemma dict_get_set: "dict_get (dict_set d k v) k' = (if k' = k then Some v else dict_get d k')"
  by (induction d) (auto simp: dict_get_def)

lemma keys_dict_set_present: "k \<in> fst ` set d \<Longrightarrow> map fst (dict_set d k v) = map fst d"
proof (induction d)
  case Nil
  then show ?case by simp
next
  case (Cons e d)
  obtain k' v' where e: "e = (k', v')" by (cases e) auto
  show ?case
  proof (cases "k' = k")
    case True
    with e show ?thesis by simp
  next
    case False
    with Cons.prems e have "k \<in> fst ` set d" by auto
    with Cons.IH e False show ?thesis by simp
  qed
qed

lemma keys_dict_set_absent: "k \<notin> fst ` set d \<Longrightarrow> map fst (dict_set d k v) = map fst d @ [k]"
  by (induction d) auto

lemma keys_dict_set: "fst ` set (dict_set d k v) = insert k (fst ` set d)"
proof (cases "k \<in> fst ` set d")
  case True
  from arg_cong [where f = set, OF keys_dict_set_present [OF True, of v]] True
  show ?thesis by auto
next
  case False
  from arg_cong [where f = set, OF keys_dict_set_absent [OF False, of v]]
  show ?thesis by auto
qed

lemma distinct_dict_set: "distinct (map fst d) \<Longrightarrow> distinct (map fst (dict_set d k v))"
  by (cases "k \<in> fst ` set d") (simp_all add: keys_dict_set_present keys_dict_set_absent)

lemma dict_set_same: "dict_get d k = Some v \<Longrightarrow> dict_set d k v = d"
  by (induction d) (auto simp: dict_get_def split: if_splits)

lemma dict_set_twice: "dict_set (dict_set d k v) k w = dict_set d k w"
  by (induction d) auto

lemma dict_get_None: "dict_get d k = None \<longleftrightarrow> k \<notin> fst ` set d"
  by (simp add: dict_get_def map_of_eq_None_iff)

lemma dict_get_SomeD: "dict_get d k = Some v \<Longrightarrow> k \<in> fst ` set d"
  by (auto simp: dict_get_def dest: map_of_SomeD intro: rev_image_eqI)

section \<open>Value iteration: the discount factor and the snapshot\<close>

text \<open>
  C1. The claim is that every Q-value of \<^verbatim>\<open>value_iteration\<close> is
  \<open>gamma * (reward(s, a, s') + V_prev(s'))\<close> with \<open>gamma\<close> the discount factor of the
  MDP's configuration. Line 39 multiplies by the literal \<^verbatim>\<open>0.8\<close> and never reads
  \<^verbatim>\<open>mdp.config.gamma\<close>: on the two-state scenario the call returns \<open>Q(A, move) = 8\<close>
  whatever the configured factor \<open>g\<close> is, while for \<open>g = 0.5\<close> the claimed value is
  \<open>0.5 * (10 + 0) = 5\<close>.
\<close>

theorem value_iteration_fixed_discount:
  "value_iteration (toy_mdp g) toy_store 0 =
     Inr (\<lparr>vtables = [[(A, Fin 0), (T, Fin 0)], [(A, Fin 8), (T, Fin 0)]],
           qtables = [[((A, Move), Fin 8)]]\<rparr>, 1, 0, Fin 8)
   \<and> fl_mul (gamma (config (toy_mdp (Fin 0.5))))
        (fl_add (reward (toy_mdp (Fin 0.5)) A Move T) (Fin 0)) = Fin 5"
  by (simp add: value_iteration_def toy_mdp_def toy_store_def dict_get_def py_max_def
      py_max2_def fl_sub_def round_eval)

text \<open>
  C2. The claim is that each new value is computed from the previous table alone. Line
  39 reads \<^verbatim>\<open>new_v_table[next_state]\<close>, the table the sweep is assigning to. On the
  chain \<open>B \<rightarrow> A \<rightarrow> T\<close> with all previous values 0, state \<open>A\<close> is updated first, to 8,
  and the update of \<open>B\<close> then reads that 8: the call returns \<open>V(B) = 0.8 * (0 + 8) = 6.4\<close>,
  where the previous table gives \<open>0.8 * (0 + 0) = 0\<close>.
\<close>

theorem value_iteration_reads_updated_values:
  "value_iteration chain_mdp chain_store 0 =
     Inr (\<lparr>vtables = [[(A, Fin 0), (B, Fin 0), (T, Fin 0)],
                      [(A, Fin 8), (B, round_double 6.4), (T, Fin 0)]],
           qtables = [[((A, Move), Fin 8), ((B, Move), round_double 6.4)]]\<rparr>, 1, 0, Fin 8)
   \<and> step chain_mdp B Move = (A, Fin 0)
   \<and> fl_mul (gamma (config chain_mdp)) (fl_add (reward chain_mdp B Move A) (Fin 0)) = Fin 0"
  by (simp add: value_iteration_def chain_mdp_def chain_store_def dict_get_def py_max_def
      py_max2_def fl_sub_def round_eval)

section \<open>Value iteration: what a call leaves untouched\<close>

text \<open>
  The inner loop assigns to the Q-table only; the outer loop assigns to one vtable,
  \<^verbatim>\<open>new_v_table\<close>, and there only at the states it visits.
\<close>

lemma vi_actions_frame:
  "vi_actions mdp nv q s as st = Inr st' \<Longrightarrow>
     vtables st' = vtables st \<and> length (qtables st') = length (qtables st)
     \<and> (\<forall>r. r \<noteq> q \<longrightarrow> qtables st' ! r = qtables st ! r)"
proof (induction as arbitrary: st)
  case Nil
  then show ?case by simp
next
  case (Cons a as)
  then show ?case
    by (fastforce simp: Let_def split: prod.splits option.splits)
qed

lemma vi_states_frame:
  "vi_states mdp v nv q ss (st, d) = Inr (st', d') \<Longrightarrow>
     length (vtables st') = length (vtables st)
     \<and> length (qtables st') = length (qtables st)
     \<and> (\<forall>r. r \<noteq> nv \<longrightarrow> vtables st' ! r = vtables st ! r)
     \<and> (\<forall>r. r \<noteq> q \<longrightarrow> qtables st' ! r = qtables st ! r)
     \<and> (\<forall>t. t \<notin> set ss \<longrightarrow> dict_get (vtables st' ! nv) t = dict_get (vtables st ! nv) t)"
proof (induction ss arbitrary: st d)
  case Nil
  then show ?case by simp
next
  case (Cons s ss)
  from Cons.prems obtain st1 row best new_v old_v where
    a: "vi_actions mdp nv q s (actions mdp) st = Inr st1" and
    rest: "vi_states mdp v nv q ss
        (st1\<lparr>vtables := (vtables st1)[nv := dict_set (vtables st1 ! nv) s best]\<rparr>,
         py_max2 d (fl_abs (fl_sub new_v old_v))) = Inr (st', d')"
    by (auto simp: Let_def split: sum.splits option.splits)
  note f = vi_actions_frame [OF a]
  note ih = Cons.IH [OF rest]
  show ?case
  proof (cases "nv < length (vtables st)")
    case True
    with f ih show ?thesis by (auto simp: dict_get_set)
  next
    case False
    then have "(vtables st)[nv := x] = vtables st" for x
      by (simp add: list_update_beyond)
    with f ih show ?thesis by auto
  qed
qed

lemma value_iteration_frame:
  assumes "value_iteration mdp st v = Inr (st', nv, q, d)"
  shows "nv = length (vtables st) \<and> q = length (qtables st)
     \<and> length (vtables st') = Suc (length (vtables st))
     \<and> length (qtables st') = Suc (length (qtables st))
     \<and> (\<forall>r < length (vtables st). vtables st' ! r = vtables st ! r)
     \<and> (\<forall>r < length (qtables st). qtables st' ! r = qtables st ! r)
     \<and> (\<forall>t. t \<notin> set (nonterminal_states mdp) \<longrightarrow>
            dict_get (vtables st' ! nv) t = dict_get (vtables st ! v) t)"
proof -
  let ?st2 = "st\<lparr>vtables := vtables st @ [vtables st ! v], qtables := qtables st @ [[]]\<rparr>"
  from assms have nv: "nv = length (vtables st)" and q: "q = length (qtables st)"
    and run: "vi_states mdp v (length (vtables st)) (length (qtables st))
                (nonterminal_states mdp) (?st2, Fin 0) = Inr (st', d)"
    by (auto simp: value_iteration_def Let_def split: sum.splits)
  note f = vi_states_frame [OF run]
  from f nv q show ?thesis by (auto simp: nth_append)
qed

text \<open>
  C8. Let \<open>t\<close> be a state outside \<^verbatim>\<open>mdp.nonterminal_states\<close>, as the terminal state
  is, with value 0 in the initial table. After any number \<open>n\<close> of successive calls, each
  applied to the table the previous one returned, the entry of \<open>t\<close> in the returned
  table is still 0.
\<close>

theorem value_iteration_terminal_value:
  assumes "t \<notin> set (nonterminal_states mdp)"
    and "dict_get (vtables st ! v_table) t = Some (Fin 0)"
    and "value_iteration_times n mdp st v_table = Inr (st', v_table')"
  shows "dict_get (vtables st' ! v_table') t = Some (Fin 0)"
  using assms(2,3)
proof (induction n arbitrary: st v_table)
  case 0
  then show ?case by simp
next
  case (Suc n)
  from Suc.prems(2) obtain st1 nv q d where
    one: "value_iteration mdp st v_table = Inr (st1, nv, q, d)" and
    more: "value_iteration_times n mdp st1 nv = Inr (st', v_table')"
    by (auto split: sum.splits)
  from value_iteration_frame [OF one] assms(1) Suc.prems(1)
  have "dict_get (vtables st1 ! nv) t = Some (Fin 0)" by metis
  from Suc.IH [OF this more] show ?case .
qed

theorem value_iteration_terminal_value_witness:
  "T \<notin> set (nonterminal_states chain_mdp)
   \<and> dict_get (vtables chain_store ! 0) T = Some (Fin 0)
   \<and> value_iteration_times 2 chain_mdp chain_store 0 =
       Inr (\<lparr>vtables = [[(A, Fin 0), (B, Fin 0), (T, Fin 0)],
                        [(A, Fin 8), (B, round_double 6.4), (T, Fin 0)],
                        [(A, Fin 8), (B, round_double 6.4), (T, Fin 0)]],
             qtables = [[((A, Move), Fin 8), ((B, Move), round_double 6.4)],
                        [((A, Move), Fin 8), ((B, Move), round_double 6.4)]]\<rparr>, 2)
   \<and> dict_get (vtables \<lparr>vtables = [[(A, Fin 0), (B, Fin 0), (T, Fin 0)],
                        [(A, Fin 8), (B, round_double 6.4), (T, Fin 0)],
                        [(A, Fin 8), (B, round_double 6.4), (T, Fin 0)]],
             qtables = [[((A, Move), Fin 8), ((B, Move), round_double 6.4)],
                        [((A, Move), Fin 8), ((B, Move), round_double 6.4)]]\<rparr> ! 2) T = Some (Fin 0)"
proof -
  have h1: "T \<notin> set (nonterminal_states chain_mdp)" by (simp add: chain_mdp_def)
  have h2: "dict_get (vtables chain_store ! 0) T = Some (Fin 0)"
    by (simp add: chain_store_def dict_get_def)
  have h3: "value_iteration_times 2 chain_mdp chain_store 0 =
       Inr (\<lparr>vtables = [[(A, Fin 0), (B, Fin 0), (T, Fin 0)],
                        [(A, Fin 8), (B, round_double 6.4), (T, Fin 0)],
                        [(A, Fin 8), (B, round_double 6.4), (T, Fin 0)]],
             qtables = [[((A, Move), Fin 8), ((B, Move), round_double 6.4)],
                        [((A, Move), Fin 8), ((B, Move), round_double 6.4)]]\<rparr>, 2)"
    by (simp add: numeral_2_eq_2 value_iteration_def chain_mdp_def chain_store_def dict_get_def
        py_max_def py_max2_def fl_sub_def round_eval)
  from h1 h2 h3 value_iteration_terminal_value [OF h1 h2 h3] show ?thesis by blast
qed

text \<open>
  C9. A call that returns leaves the object \<^verbatim>\<open>v_table\<close> refers to as it was, and
  every other object of the store too; the two references it returns did not exist
  before the call, so \<^verbatim>\<open>new_v_table\<close> and \<^verbatim>\<open>q_table\<close> are new objects.
\<close>

theorem value_iteration_keeps_input:
  assumes "value_iteration mdp st v_table = Inr (st', new_v_table, q_table, max_delta)"
    and "v_table < length (vtables st)"
  shows "vtables st' ! v_table = vtables st ! v_table
     \<and> take (length (vtables st)) (vtables st') = vtables st
     \<and> take (length (qtables st)) (qtables st') = qtables st
     \<and> new_v_table = length (vtables st) \<and> q_table = length (qtables st)
     \<and> length (vtables st') = Suc (length (vtables st))
     \<and> length (qtables st') = Suc (length (qtables st))
     \<and> new_v_table \<noteq> v_table"
proof -
  note f = value_iteration_frame [OF assms(1)]
  have "take (length (vtables st)) (vtables st') = vtables st"
    using f by (intro nth_equalityI) auto
  moreover have "take (length (qtables st)) (qtables st') = qtables st"
    using f by (intro nth_equalityI) auto
  ultimately show ?thesis using f assms(2) by simp
qed

theorem value_iteration_keeps_input_witness:
  "value_iteration chain_mdp chain_store 0 =
     Inr (\<lparr>vtables = [[(A, Fin 0), (B, Fin 0), (T, Fin 0)],
                      [(A, Fin 8), (B, round_double 6.4), (T, Fin 0)]],
           qtables = [[((A, Move), Fin 8), ((B, Move), round_double 6.4)]]\<rparr>, 1, 0, Fin 8)
   \<and> (0::nat) < length (vtables chain_store)
   \<and> vtables \<lparr>vtables = [[(A, Fin 0), (B, Fin 0), (T, Fin 0)],
                      [(A, Fin 8), (B, round_double 6.4), (T, Fin 0)]],
           qtables = [[((A, Move), Fin 8), ((B, Move), round_double 6.4)]]\<rparr> ! 0 = vtables chain_store ! 0"
proof -
  have h1: "value_iteration chain_mdp chain_store 0 =
     Inr (\<lparr>vtables = [[(A, Fin 0), (B, Fin 0), (T, Fin 0)],
                      [(A, Fin 8), (B, round_double 6.4), (T, Fin 0)]],
           qtables = [[((A, Move), Fin 8), ((B, Move), round_double 6.4)]]\<rparr>, 1, 0, Fin 8)"
    by (simp add: value_iteration_def chain_mdp_def chain_store_def dict_get_def py_max_def
        py_max2_def fl_sub_def round_eval)
  have h2: "(0::nat) < length (vtables chain_store)" by (simp add: chain_store_def)
  from h1 h2 value_iteration_keeps_input [OF h1 h2] show ?thesis by blast
qed

section \<open>Policy extraction\<close>

text \<open>
  The inner loop reads the Q-table only, so the policies of the store do not matter to
  it. It never lowers \<^verbatim>\<open>best_q_value\<close>; no entry it has passed compares greater than
  the final one; and when the pair it returns differs from the pair it started with,
  the action is the first in the list whose entry holds the final value.
\<close>

lemma ep_actions_policies:
  "ep_actions (st\<lparr>policies := p\<rparr>) q s as acc = ep_actions st q s as acc"
proof (induction as arbitrary: acc)
  case Nil
  show ?case by (cases acc) simp
next
  case (Cons a as)
  show ?case by (cases acc) (simp add: Cons.IH split: option.splits)
qed

lemma ep_actions_mono:
  "ep_actions st q s as (ba, bq) = (ba', bq') \<Longrightarrow> bq' = bq \<or> fl_gt bq' bq"
proof (induction as arbitrary: ba bq)
  case Nil
  then show ?case by simp
next
  case (Cons a as)
  then show ?case
    by (auto split: option.splits if_splits dest: fl_gt_trans)
qed

lemma ep_actions_upper:
  assumes "ep_actions st q s as (ba, bq) = (ba', bq')"
    and "c \<in> set as" and "dict_get (qtables st ! q) (s, c) = Some y"
  shows "\<not> fl_gt y bq'"
  using assms
proof (induction as arbitrary: ba bq)
  case Nil
  then show ?case by simp
next
  case (Cons a as)
  show ?case
  proof (cases "c \<in> set as")
    case True
    with Cons show ?thesis by (auto split: option.splits if_splits)
  next
    case False
    with Cons.prems have ca: "c = a" by simp
    show ?thesis
    proof (cases "fl_gt y bq")
      case True
      with Cons.prems ca have "ep_actions st q s as (Some a, y) = (ba', bq')" by simp
      from ep_actions_mono [OF this] show ?thesis
        by (auto simp: fl_gt_irrefl dest: fl_gt_asym)
    next
      case False
      with Cons.prems ca have "ep_actions st q s as (ba, bq) = (ba', bq')" by simp
      from ep_actions_mono [OF this] False show ?thesis
        by (auto dest: fl_not_gt_trans)
    qed
  qed
qed

lemma ep_actions_first:
  assumes "ep_actions st q s as (ba, bq) = (ba', bq')"
  shows "(ba', bq') = (ba, bq) \<or>
     (\<exists>pre b post. as = pre @ b # post \<and> ba' = Some b
        \<and> dict_get (qtables st ! q) (s, b) = Some bq'
        \<and> fl_gt bq' bq \<and> (\<forall>c\<in>set pre. dict_get (qtables st ! q) (s, c) \<noteq> Some bq'))"
  using assms
proof (induction as arbitrary: ba bq)
  case Nil
  then show ?case by simp
next
  case (Cons a as)
  let ?Q = "qtables st ! q"
  show ?case
  proof (cases "\<exists>y. dict_get ?Q (s, a) = Some y \<and> fl_gt y bq")
    case True
    then obtain y where y: "dict_get ?Q (s, a) = Some y" "fl_gt y bq" by blast
    with Cons.prems have run: "ep_actions st q s as (Some a, y) = (ba', bq')" by simp
    from Cons.IH [OF run] show ?thesis
    proof
      assume "(ba', bq') = (Some a, y)"
      with y have "a # as = [] @ a # as \<and> ba' = Some a \<and> dict_get ?Q (s, a) = Some bq'
        \<and> fl_gt bq' bq \<and> (\<forall>c\<in>set []. dict_get ?Q (s, c) \<noteq> Some bq')" by simp
      then show ?thesis by blast
    next
      assume "\<exists>pre b post. as = pre @ b # post \<and> ba' = Some b \<and> dict_get ?Q (s, b) = Some bq'
        \<and> fl_gt bq' y \<and> (\<forall>c\<in>set pre. dict_get ?Q (s, c) \<noteq> Some bq')"
      then obtain pre b post where p: "as = pre @ b # post" "ba' = Some b"
        "dict_get ?Q (s, b) = Some bq'" "fl_gt bq' y"
        "\<forall>c\<in>set pre. dict_get ?Q (s, c) \<noteq> Some bq'" by blast
      from p(4) y have "fl_gt bq' bq" "y \<noteq> bq'"
        by (auto dest: fl_gt_trans simp: fl_gt_irrefl)
      with p y have "a # as = (a # pre) @ b # post \<and> ba' = Some b
        \<and> dict_get ?Q (s, b) = Some bq' \<and> fl_gt bq' bq
        \<and> (\<forall>c\<in>set (a # pre). dict_get ?Q (s, c) \<noteq> Some bq')" by simp
      then show ?thesis by blast
    qed
  next
    case False
    with Cons.prems have run: "ep_actions st q s as (ba, bq) = (ba', bq')"
      by (auto split: option.splits if_splits)
    from Cons.IH [OF run] show ?thesis
    proof
      assume "(ba', bq') = (ba, bq)"
      then show ?thesis by simp
    next
      assume "\<exists>pre b post. as = pre @ b # post \<and> ba' = Some b \<and> dict_get ?Q (s, b) = Some bq'
        \<and> fl_gt bq' bq \<and> (\<forall>c\<in>set pre. dict_get ?Q (s, c) \<noteq> Some bq')"
      then obtain pre b post where p: "as = pre @ b # post" "ba' = Some b"
        "dict_get ?Q (s, b) = Some bq'" "fl_gt bq' bq"
        "\<forall>c\<in>set pre. dict_get ?Q (s, c) \<noteq> Some bq'" by blast
      from False p(4) have "dict_get ?Q (s, a) \<noteq> Some bq'" by auto
      with p have "a # as = (a # pre) @ b # post \<and> ba' = Some b
        \<and> dict_get ?Q (s, b) = Some bq' \<and> fl_gt bq' bq
        \<and> (\<forall>c\<in>set (a # pre). dict_get ?Q (s, c) \<noteq> Some bq')" by simp
      then show ?thesis by blast
    qed
  qed
qed

lemma ep_states_frame:
  "vtables (ep_states mdp q p ss st) = vtables st
   \<and> qtables (ep_states mdp q p ss st) = qtables st
   \<and> length (policies (ep_states mdp q p ss st)) = length (policies st)
   \<and> (\<forall>r. r \<noteq> p \<longrightarrow> policies (ep_states mdp q p ss st) ! r = policies st ! r)"
proof (induction ss arbitrary: st)
  case Nil
  then show ?case by simp
next
  case (Cons s ss)
  show ?case by (simp add: Cons.IH split: prod.splits)
qed

lemma ep_states_get:
  assumes "p < length (policies st)"
  shows "dict_get (policies (ep_states mdp q p ss st) ! p) s =
     (if s \<in> set ss then Some (fst (ep_actions st q s (actions mdp) (None, NegInf)))
      else dict_get (policies st ! p) s)"
  using assms
proof (induction ss arbitrary: st)
  case Nil
  then show ?case by simp
next
  case (Cons t ss)
  obtain ba bq where run: "ep_actions st q t (actions mdp) (None, NegInf) = (ba, bq)"
    by (cases "ep_actions st q t (actions mdp) (None, NegInf)") auto
  let ?st = "st\<lparr>policies := (policies st)[p := dict_set (policies st ! p) t ba]\<rparr>"
  have len: "p < length (policies ?st)" using Cons.prems by simp
  from Cons.IH [OF len] run Cons.prems show ?case
    by (simp add: ep_actions_policies dict_get_set)
qed

text \<open>
  As stated, C7 promises an action of maximal Q-value to every nonterminal state with an
  entry in the table. The comparison on line 75 is strict and starts from \<open>-inf\<close>, so an
  entry that is itself \<open>-inf\<close> (the value \<^verbatim>\<open>q_update\<close> stores after a transition into
  a state without entries) is never selected: with the single entry \<open>Q(A, move) = -inf\<close>
  the policy maps \<open>A\<close> to \<^verbatim>\<open>None\<close>.
\<close>

theorem extract_policy_neg_inf_counterexample:
  "A \<in> set (nonterminal_states (toy_mdp (round_double 0.8)))
   \<and> dict_get (qtables neg_inf_store ! 0) (A, Move) = Some NegInf
   \<and> extract_policy (toy_mdp (round_double 0.8)) neg_inf_store 0 =
       (\<lparr>vtables = [], qtables = [[((A, Move), NegInf)]], policies = [[(A, None)]]\<rparr>, 0)"
  by (simp add: extract_policy_def toy_mdp_def neg_inf_store_def dict_get_def)

text \<open>
  C7, amended. A call of \<^verbatim>\<open>extract_policy\<close> changes no value table, no Q-table and
  no policy that existed before; the policy it returns is a new object. In that policy,
  a nonterminal state \<open>s\<close> for which some action of \<^verbatim>\<open>mdp.actions\<close> has an entry
  greater than \<open>-inf\<close> is mapped to an action \<open>b\<close> of \<^verbatim>\<open>mdp.actions\<close> whose entry \<open>m\<close>
  is greater than \<open>-inf\<close> and exceeded by no entry \<open>Q(s, c)\<close>, \<open>c\<close> in
  \<^verbatim>\<open>mdp.actions\<close>, and \<open>b\<close> is the first action in the order of \<^verbatim>\<open>mdp.actions\<close>
  whose entry is \<open>m\<close>. A nonterminal state with no such entry (no entry at all, or only
  entries that are \<open>-inf\<close> or NaN) is mapped to \<^verbatim>\<open>None\<close>, and a state outside
  \<^verbatim>\<open>mdp.nonterminal_states\<close> has no entry in the policy.
\<close>

theorem extract_policy_greedy:
  assumes "extract_policy mdp st q_table = (st', policy)"
  shows "vtables st' = vtables st \<and> qtables st' = qtables st
     \<and> policy = length (policies st)
     \<and> length (policies st') = Suc (length (policies st))
     \<and> take (length (policies st)) (policies st') = policies st
     \<and> (\<forall>s\<in>set (nonterminal_states mdp).
          ((\<exists>a\<in>set (actions mdp). \<exists>x.
               dict_get (qtables st ! q_table) (s, a) = Some x \<and> fl_gt x NegInf) \<longrightarrow>
           (\<exists>b m pre post.
               dict_get (policies st' ! policy) s = Some (Some b)
             \<and> actions mdp = pre @ b # post
             \<and> dict_get (qtables st ! q_table) (s, b) = Some m
             \<and> fl_gt m NegInf
             \<and> (\<forall>c\<in>set (actions mdp). \<forall>y.
                   dict_get (qtables st ! q_table) (s, c) = Some y \<longrightarrow> \<not> fl_gt y m)
             \<and> (\<forall>c\<in>set pre. dict_get (qtables st ! q_table) (s, c) \<noteq> Some m)))
        \<and> ((\<forall>a\<in>set (actions mdp). \<forall>x.
               dict_get (qtables st ! q_table) (s, a) = Some x \<longrightarrow> \<not> fl_gt x NegInf) \<longrightarrow>
           dict_get (policies st' ! policy) s = Some None))
     \<and> (\<forall>s. s \<notin> set (nonterminal_states mdp) \<longrightarrow> dict_get (policies st' ! policy) s = None)"
proof -
  let ?p = "length (policies st)"
  let ?st1 = "st\<lparr>policies := policies st @ [[]]\<rparr>"
  let ?Q = "qtables st ! q_table"
  from assms have st': "st' = ep_states mdp q_table ?p (nonterminal_states mdp) ?st1"
    and pol: "policy = ?p"
    by (auto simp: extract_policy_def Let_def)
  note f = ep_states_frame [of mdp q_table ?p "nonterminal_states mdp" ?st1, folded st']
  from f have vt: "vtables st' = vtables st" and qt: "qtables st' = qtables st"
    and len: "length (policies st') = Suc ?p" by simp_all
  have old: "take ?p (policies st') = policies st"
    using f by (intro nth_equalityI) (auto simp: nth_append)
  have get: "dict_get (policies st' ! ?p) s =
      (if s \<in> set (nonterminal_states mdp)
       then Some (fst (ep_actions st q_table s (actions mdp) (None, NegInf))) else None)" for s
    unfolding st'
    by (subst ep_states_get) (simp_all add: ep_actions_policies dict_get_def)
  have some: "\<exists>b m pre post.
               dict_get (policies st' ! ?p) s = Some (Some b)
             \<and> actions mdp = pre @ b # post
             \<and> dict_get ?Q (s, b) = Some m \<and> fl_gt m NegInf
             \<and> (\<forall>c\<in>set (actions mdp). \<forall>y. dict_get ?Q (s, c) = Some y \<longrightarrow> \<not> fl_gt y m)
             \<and> (\<forall>c\<in>set pre. dict_get ?Q (s, c) \<noteq> Some m)"
    if s: "s \<in> set (nonterminal_states mdp)"
      and ex: "\<exists>a\<in>set (actions mdp). \<exists>x. dict_get ?Q (s, a) = Some x \<and> fl_gt x NegInf"
    for s
  proof -
    obtain ba bq where run: "ep_actions st q_table s (actions mdp) (None, NegInf) = (ba, bq)"
      by (cases "ep_actions st q_table s (actions mdp) (None, NegInf)") auto
    have upper: "\<forall>c\<in>set (actions mdp). \<forall>y. dict_get ?Q (s, c) = Some y \<longrightarrow> \<not> fl_gt y bq"
      using ep_actions_upper [OF run] by blast
    from ex obtain a x where "a \<in> set (actions mdp)" "dict_get ?Q (s, a) = Some x"
      "fl_gt x NegInf" by blast
    with upper have "(ba, bq) \<noteq> (None, NegInf)" by auto
    with ep_actions_first [OF run] obtain pre b post where
      p: "actions mdp = pre @ b # post" "ba = Some b" "dict_get ?Q (s, b) = Some bq"
         "fl_gt bq NegInf" "\<forall>c\<in>set pre. dict_get ?Q (s, c) \<noteq> Some bq"
      by blast
    from s run p(2) have "dict_get (policies st' ! ?p) s = Some (Some b)"
      by (simp add: get)
    with p upper show ?thesis by blast
  qed
  have none: "dict_get (policies st' ! ?p) s = Some None"
    if s: "s \<in> set (nonterminal_states mdp)"
      and no: "\<forall>a\<in>set (actions mdp). \<forall>x. dict_get ?Q (s, a) = Some x \<longrightarrow> \<not> fl_gt x NegInf"
    for s
  proof -
    obtain ba bq where run: "ep_actions st q_table s (actions mdp) (None, NegInf) = (ba, bq)"
      by (cases "ep_actions st q_table s (actions mdp) (None, NegInf)") auto
    from ep_actions_first [OF run] no have "(ba, bq) = (None, NegInf)"
      by (metis in_set_conv_decomp)
    with s run show ?thesis by (simp add: get)
  qed
  from vt qt pol len old some none get show ?thesis by (simp add: pol)
qed

theorem extract_policy_greedy_witness:
  "extract_policy tie_mdp tie_store 0 =
     (\<lparr>vtables = [[(A, Fin 0), (T, Fin 0)]], qtables = [tie_q],
       policies = [[(A, Some Move), (B, Some Move)]]\<rparr>, 0)
   \<and> qtables \<lparr>vtables = [[(A, Fin 0), (T, Fin 0)]], qtables = [tie_q],
       policies = [[(A, Some Move), (B, Some Move)]]\<rparr> = qtables tie_store
   \<and> A \<in> set (nonterminal_states tie_mdp) \<and> Stay \<in> set (actions tie_mdp)
   \<and> dict_get (qtables tie_store ! 0) (A, Stay) = Some (Fin 3) \<and> fl_gt (Fin 3) NegInf
   \<and> (\<exists>b m pre post.
          dict_get (policies \<lparr>vtables = [[(A, Fin 0), (T, Fin 0)]], qtables = [tie_q],
             policies = [[(A, Some Move), (B, Some Move)]]\<rparr> ! 0) A = Some (Some b)
        \<and> actions tie_mdp = pre @ b # post
        \<and> dict_get (qtables tie_store ! 0) (A, b) = Some m
        \<and> fl_gt m NegInf
        \<and> (\<forall>c\<in>set (actions tie_mdp). \<forall>y.
              dict_get (qtables tie_store ! 0) (A, c) = Some y \<longrightarrow> \<not> fl_gt y m)
        \<and> (\<forall>c\<in>set pre. dict_get (qtables tie_store ! 0) (A, c) \<noteq> Some m))
   \<and> extract_policy (toy_mdp (Fin 0.5)) neg_inf_store 0 =
       (\<lparr>vtables = [], qtables = [[((A, Move), NegInf)]], policies = [[(A, None)]]\<rparr>, 0)
   \<and> actions (toy_mdp (Fin 0.5)) = [Move]
   \<and> dict_get (qtables neg_inf_store ! 0) (A, Move) = Some NegInf
   \<and> \<not> fl_gt NegInf NegInf
   \<and> dict_get (policies \<lparr>vtables = [], qtables = [[((A, Move), NegInf)]],
         policies = [[(A, None)]]\<rparr> ! 0) A = Some None"
proof -
  let ?X = "\<lparr>vtables = [[(A, Fin 0), (T, Fin 0)]], qtables = [tie_q],
       policies = [[(A, Some Move), (B, Some Move)]]\<rparr>"
  let ?Y = "\<lparr>vtables = [], qtables = [[((A, Move), NegInf)]],
       policies = [[(A, None :: toy_action option)]]\<rparr>"
  have ev: "extract_policy tie_mdp tie_store 0 = (?X, 0)"
    by (simp add: extract_policy_def tie_mdp_def tie_store_def tie_q_def dict_get_def)
  have h: "A \<in> set (nonterminal_states tie_mdp)" "Stay \<in> set (actions tie_mdp)"
    "dict_get (qtables tie_store ! 0) (A, Stay) = Some (Fin 3)" "fl_gt (Fin 3) NegInf"
    by (simp_all add: tie_mdp_def tie_store_def tie_q_def dict_get_def)
  note t1 = extract_policy_greedy [OF ev]
  from t1 have frame: "qtables ?X = qtables tie_store" by blast
  from t1 h have some: "\<exists>b m pre post.
          dict_get (policies ?X ! 0) A = Some (Some b)
        \<and> actions tie_mdp = pre @ b # post
        \<and> dict_get (qtables tie_store ! 0) (A, b) = Some m
        \<and> fl_gt m NegInf
        \<and> (\<forall>c\<in>set (actions tie_mdp). \<forall>y.
              dict_get (qtables tie_store ! 0) (A, c) = Some y \<longrightarrow> \<not> fl_gt y m)
        \<and> (\<forall>c\<in>set pre. dict_get (qtables tie_store ! 0) (A, c) \<noteq> Some m)"
    by blast
  have ev2: "extract_policy (toy_mdp (Fin 0.5)) neg_inf_store 0 = (?Y, 0)"
    by (simp add: extract_policy_def toy_mdp_def neg_inf_store_def dict_get_def)
  have g: "A \<in> set (nonterminal_states (toy_mdp (Fin 0.5)))"
    "actions (toy_mdp (Fin 0.5)) = [Move]"
    "dict_get (qtables neg_inf_store ! 0) (A, Move) = Some NegInf" "\<not> fl_gt NegInf NegInf"
    by (simp_all add: toy_mdp_def neg_inf_store_def dict_get_def)
  from extract_policy_greedy [OF ev2] g have none: "dict_get (policies ?Y ! 0) A = Some None"
    by auto
  from ev h frame some ev2 g none show ?thesis by blast
qed

section \<open>The Q-learning update: absent keys and goal states\<close>

text \<open>The loop of lines 101 to 104 is a running maximum over the entries of the next state.\<close>

lemma max_next_foldl:
  "max_next q next_state m = foldl py_max2 m (map snd (filter (\<lambda>e. fst (fst e) = next_state) q))"
proof (induction q arbitrary: m)
  case Nil
  then show ?case by simp
next
  case (Cons e q)
  obtain s a x where e: "e = ((s, a), x)" by (cases e) auto
  have "py_max2 m x = (if fl_gt x m then x else m)" by (simp add: py_max2_def)
  then show ?case unfolding e by (simp add: Cons.IH)
qed

text \<open>
  As stated, C3 has \<^verbatim>\<open>q_update\<close> succeed when \<open>(s, a)\<close> is not yet in the table,
  with 0 as the prior value. Line 109 reads \<^verbatim>\<open>q_table[state, action]\<close> on its
  right-hand side and nothing in the module gives an absent entry a default, so on the
  empty table of the specification's own scenario the call raises \<^verbatim>\<open>KeyError\<close>.
\<close>

theorem q_update_absent_key:
  "q_update (toy_mdp (round_double 0.8)) [] (A, Move, Fin 10, T) (Fin 0.5) = Inl KeyError"
  by (simp add: q_update_def dict_get_def)

text \<open>
  C3, amended. On a Q-table (a dictionary: no key twice), a call with \<open>(s, a)\<close> absent
  raises \<^verbatim>\<open>KeyError\<close>. A call with \<open>(s, a)\<close> present, with value \<open>prior\<close>, succeeds
  and stores \<open>(1 - alpha) * prior + alpha * (r + gamma * maxQ)\<close> at \<open>(s, a)\<close>, in float
  arithmetic and leaving every other entry as it was; \<open>gamma\<close> is the factor of the
  MDP's configuration, and \<open>maxQ\<close> is 0 when \<open>is_goal s\<close>; otherwise \<open>maxQ\<close> is never
  NaN, it is \<open>-inf\<close> or one of the entries of the next state, and no entry of the next
  state is greater. The example is the update \<open>0.5 * 1 + 0.5 * (0 + 0.8 * 3)\<close>, which
  in doubles is \<open>1.7000000000000002\<close>.
\<close>

theorem q_update_outcome:
  assumes "distinct (map fst q_table)"
  shows "(dict_get q_table (s, a) = None \<longrightarrow>
            q_update mdp q_table (s, a, r, s') alpha = Inl KeyError)
    \<and> (\<forall>prior. dict_get q_table (s, a) = Some prior \<longrightarrow>
         (\<exists>maxQ q_table'.
            q_update mdp q_table (s, a, r, s') alpha = Inr q_table'
          \<and> q_table' = dict_set q_table (s, a)
               (fl_add (fl_mul (fl_sub (Fin 1) alpha) prior)
                  (fl_mul alpha (fl_add r (fl_mul (gamma (config mdp)) maxQ))))
          \<and> dict_get q_table' (s, a) =
               Some (fl_add (fl_mul (fl_sub (Fin 1) alpha) prior)
                  (fl_mul alpha (fl_add r (fl_mul (gamma (config mdp)) maxQ))))
          \<and> (\<forall>k. k \<noteq> (s, a) \<longrightarrow> dict_get q_table' k = dict_get q_table k)
          \<and> maxQ \<noteq> NaN
          \<and> (is_goal mdp s \<longrightarrow> maxQ = Fin 0)
          \<and> (\<not> is_goal mdp s \<longrightarrow>
                (maxQ = NegInf \<or> (\<exists>b. dict_get q_table (s', b) = Some maxQ))
              \<and> (\<forall>b x. dict_get q_table (s', b) = Some x \<longrightarrow> \<not> fl_gt x maxQ))))"
proof -
  let ?row = "map snd (filter (\<lambda>e. fst (fst e) = s') q_table)"
  let ?maxQ = "if \<not> is_goal mdp s then max_next q_table s' NegInf else Fin 0"
  have mem: "dict_get q_table k = Some x \<longleftrightarrow> (k, x) \<in> set q_table" for k x
    using assms by (simp add: dict_get_def)
  have row: "x \<in> set ?row \<longleftrightarrow> (\<exists>b. dict_get q_table (s', b) = Some x)" for x
    by (force simp: mem)
  have absent: "q_update mdp q_table (s, a, r, s') alpha = Inl KeyError"
    if "dict_get q_table (s, a) = None"
    using that by (simp add: q_update_def)
  have run: "q_update mdp q_table (s, a, r, s') alpha =
        Inr (dict_set q_table (s, a)
              (fl_add (fl_mul (fl_sub (Fin 1) alpha) prior)
                 (fl_mul alpha (fl_add r (fl_mul (gamma (config mdp)) ?maxQ)))))"
    if "dict_get q_table (s, a) = Some prior" for prior
    using that by (simp add: q_update_def)
  have nn: "?maxQ \<noteq> NaN"
    by (simp add: max_next_foldl foldl_py_max2_not_nan)
  have att: "max_next q_table s' NegInf = NegInf
      \<or> (\<exists>b. dict_get q_table (s', b) = Some (max_next q_table s' NegInf))"
    using foldl_py_max2_mem [of NegInf ?row] row by (auto simp: max_next_foldl)
  have up: "\<forall>b x. dict_get q_table (s', b) = Some x \<longrightarrow> \<not> fl_gt x (max_next q_table s' NegInf)"
    using foldl_py_max2_upper [of _ ?row NegInf] row by (auto simp: max_next_foldl)
  have present: "\<exists>maxQ q_table'.
            q_update mdp q_table (s, a, r, s') alpha = Inr q_table'
          \<and> q_table' = dict_set q_table (s, a)
               (fl_add (fl_mul (fl_sub (Fin 1) alpha) prior)
                  (fl_mul alpha (fl_add r (fl_mul (gamma (config mdp)) maxQ))))
          \<and> dict_get q_table' (s, a) =
               Some (fl_add (fl_mul (fl_sub (Fin 1) alpha) prior)
                  (fl_mul alpha (fl_add r (fl_mul (gamma (config mdp)) maxQ))))
          \<and> (\<forall>k. k \<noteq> (s, a) \<longrightarrow> dict_get q_table' k = dict_get q_table k)
          \<and> maxQ \<noteq> NaN
          \<and> (is_goal mdp s \<longrightarrow> maxQ = Fin 0)
          \<and> (\<not> is_goal mdp s \<longrightarrow>
                (maxQ = NegInf \<or> (\<exists>b. dict_get q_table (s', b) = Some maxQ))
              \<and> (\<forall>b x. dict_get q_table (s', b) = Some x \<longrightarrow> \<not> fl_gt x maxQ))"
    if p: "dict_get q_table (s, a) = Some prior" for prior
    using run [OF p] nn att up
    by (intro exI [of _ ?maxQ] exI [of _ "dict_set q_table (s, a)
              (fl_add (fl_mul (fl_sub (Fin 1) alpha) prior)
                 (fl_mul alpha (fl_add r (fl_mul (gamma (config mdp)) ?maxQ))))"])
       (simp add: dict_get_set)
  from absent present show ?thesis by blast
qed

theorem q_update_outcome_witness:
  "distinct (map fst tie_q)
   \<and> dict_get tie_q (B, Move) = Some (Fin 1)
   \<and> \<not> is_goal tie_mdp B
   \<and> q_update tie_mdp tie_q (B, Move, Fin 0, A) (Fin 0.5) =
       Inr [((A, Move), Fin 3), ((B, Move), round_double 1.7000000000000002),
            ((A, Stay), Fin 3), ((B, Stay), NegInf)]
   \<and> dict_get tie_q (T, Move) = None
   \<and> q_update tie_mdp tie_q (T, Move, Fin 0, A) (Fin 0.5) = Inl KeyError"
proof -
  have h: "distinct (map fst tie_q)" by (simp add: tie_q_def)
  have p: "dict_get tie_q (B, Move) = Some (Fin 1)" "dict_get tie_q (T, Move) = None"
    by (simp_all add: tie_q_def dict_get_def)
  have g: "\<not> is_goal tie_mdp B" by (simp add: tie_mdp_def)
  have ev: "q_update tie_mdp tie_q (B, Move, Fin 0, A) (Fin 0.5) =
       Inr [((A, Move), Fin 3), ((B, Move), round_double 1.7000000000000002),
            ((A, Stay), Fin 3), ((B, Stay), NegInf)]"
    by (simp add: q_update_def tie_mdp_def tie_q_def dict_get_def fl_sub_def round_eval)
  from q_update_outcome [OF h, of T Move tie_mdp "Fin 0" A "Fin 0.5"] p(2)
  have ke: "q_update tie_mdp tie_q (T, Move, Fin 0, A) (Fin 0.5) = Inl KeyError" by blast
  from h p g ev ke show ?thesis by blast
qed

text \<open>
  C4. When \<open>is_goal s\<close> holds, two transitions that differ only in the next state give
  the same outcome of \<^verbatim>\<open>q_update\<close>: the bootstrap value is the constant 0, and the
  outcome is the table with \<open>(1 - alpha) * Q(s, a) + alpha * (r + gamma * 0)\<close> stored at
  \<open>(s, a)\<close> (or \<^verbatim>\<open>KeyError\<close>, for both, when \<open>(s, a)\<close> is absent).
\<close>

theorem q_update_goal_ignores_next_state:
  assumes "is_goal mdp s"
  shows "q_update mdp q (s, a, r, s1) alpha = q_update mdp q (s, a, r, s2) alpha
    \<and> q_update mdp q (s, a, r, s1) alpha =
        (case dict_get q (s, a) of
           None \<Rightarrow> Inl KeyError
         | Some old \<Rightarrow>
             Inr (dict_set q (s, a)
                   (fl_add (fl_mul (fl_sub (Fin 1) alpha) old)
                      (fl_mul alpha (fl_add r (fl_mul (gamma (config mdp)) (Fin 0)))))))"
  using assms by (simp add: q_update_def)

theorem q_update_goal_ignores_next_state_witness:
  "is_goal chain_mdp A
   \<and> q_update chain_mdp [((A, Move), Fin 2), ((B, Move), Fin 7), ((T, Move), Fin 3)]
       (A, Move, Fin 10, B) (Fin 0.5)
     = q_update chain_mdp [((A, Move), Fin 2), ((B, Move), Fin 7), ((T, Move), Fin 3)]
       (A, Move, Fin 10, T) (Fin 0.5)
   \<and> q_update chain_mdp [((A, Move), Fin 2), ((B, Move), Fin 7), ((T, Move), Fin 3)]
       (A, Move, Fin 10, B) (Fin 0.5)
     = Inr [((A, Move), Fin 6), ((B, Move), Fin 7), ((T, Move), Fin 3)]"
proof -
  have g: "is_goal chain_mdp A" by (simp add: chain_mdp_def)
  have gm: "gamma (config chain_mdp) = round_double 0.8" by (simp add: chain_mdp_def)
  show ?thesis
    using g q_update_goal_ignores_next_state [OF g, of
        "[((A, Move), Fin 2), ((B, Move), Fin 7), ((T, Move), Fin 3)]" Move "Fin 10" B "Fin 0.5" T]
    by (auto simp add: dict_get_def fl_sub_def gm round_eval)
qed

section \<open>Value table from a Q-table\<close>

text \<open>
  One step of the loop stores, at the state of the entry, the larger of the value
  already there (\<open>-inf\<close> when there is none) and the value of the entry.
\<close>

lemma ev_entries_step:
  "ev_entries (((s, a), x) # q) v =
     ev_entries q (dict_set v s (py_max2 (case dict_get v s of None \<Rightarrow> NegInf | Some c \<Rightarrow> c) x))"
  by (cases "dict_get v s")
     (simp_all add: dict_get_set dict_set_twice dict_set_same py_max2_def)

lemma ev_entries_get:
  "dict_get (ev_entries q v) s =
     (if map snd (filter (\<lambda>e. fst (fst e) = s) q) = [] then dict_get v s
      else Some (foldl py_max2 (case dict_get v s of None \<Rightarrow> NegInf | Some c \<Rightarrow> c)
                   (map snd (filter (\<lambda>e. fst (fst e) = s) q))))"
proof (induction q arbitrary: v)
  case Nil
  then show ?case by simp
next
  case (Cons e q)
  obtain s' a x where e: "e = ((s', a), x)" by (cases e) auto
  show ?case
    unfolding e ev_entries_step
    by (simp add: Cons.IH dict_get_set)
qed

lemma ev_entries_keys:
  "fst ` set (ev_entries q v) = fst ` set v \<union> (fst \<circ> fst) ` set q"
proof (induction q arbitrary: v)
  case Nil
  then show ?case by simp
next
  case (Cons e q)
  obtain s' a x where e: "e = ((s', a), x)" by (cases e) auto
  show ?case
    unfolding e ev_entries_step
    by (simp add: Cons.IH keys_dict_set)
qed

lemma ev_entries_distinct:
  "distinct (map fst v) \<Longrightarrow> distinct (map fst (ev_entries q v))"
proof (induction q arbitrary: v)
  case Nil
  then show ?case by simp
next
  case (Cons e q)
  obtain s' a x where e: "e = ((s', a), x)" by (cases e) auto
  from Cons.prems show ?case
    unfolding e ev_entries_step
    by (intro Cons.IH distinct_dict_set)
qed

text \<open>
  As stated, C10 maps every state with an entry to the maximum of its entries. The
  running maximum starts from \<open>-inf\<close> and a NaN entry never compares greater, so a
  state whose entries are all NaN (the value \<^verbatim>\<open>q_update\<close> stores for \<open>alpha = 1\<close>
  over a prior of \<open>-inf\<close>) is mapped to \<open>-inf\<close>, which is none of its entries.
\<close>

theorem extract_v_table_nan_counterexample:
  "dict_get [((A, Move), NaN)] (A, Move) = Some NaN
   \<and> extract_v_table tie_mdp [((A, Move), NaN)] = [(A, NegInf)]"
  by (simp add: extract_v_table_def dict_get_def)

text \<open>
  C10, amended. For every Q-table (a dictionary: no key twice) the keys of
  \<^verbatim>\<open>extract_v_table\<close>'s result are exactly the states with at least one entry, each
  once, and a state without entries has no value. The value \<open>m\<close> of a state with
  entries is never NaN and no entry of the state is greater; \<open>m\<close> is one of the
  entries of the state, hence their maximum when NaN entries are left aside, unless
  all of them are NaN, and then \<open>m\<close> is \<open>-inf\<close>.
\<close>

theorem extract_v_table_max:
  assumes "distinct (map fst q_table)"
  shows "fst ` set (extract_v_table mdp q_table) = {s. \<exists>a. dict_get q_table (s, a) \<noteq> None}
     \<and> distinct (map fst (extract_v_table mdp q_table))
     \<and> (\<forall>s. (\<forall>a. dict_get q_table (s, a) = None) \<longrightarrow>
            dict_get (extract_v_table mdp q_table) s = None)
     \<and> (\<forall>s. (\<exists>a. dict_get q_table (s, a) \<noteq> None) \<longrightarrow>
          (\<exists>m. dict_get (extract_v_table mdp q_table) s = Some m
             \<and> m \<noteq> NaN
             \<and> (\<forall>b x. dict_get q_table (s, b) = Some x \<longrightarrow> \<not> fl_gt x m)
             \<and> ((\<exists>a. dict_get q_table (s, a) = Some m)
                \<or> (m = NegInf \<and> (\<forall>b x. dict_get q_table (s, b) = Some x \<longrightarrow> x = NaN)))))"
proof -
  have mem: "dict_get q_table k = Some x \<longleftrightarrow> (k, x) \<in> set q_table" for k x
    using assms by (simp add: dict_get_def)
  have keys: "fst ` set (extract_v_table mdp q_table) = {s. \<exists>a. dict_get q_table (s, a) \<noteq> None}"
    unfolding extract_v_table_def ev_entries_keys dict_get_None by force
  have dist: "distinct (map fst (extract_v_table mdp q_table))"
    by (simp add: extract_v_table_def ev_entries_distinct)
  have absent: "dict_get (extract_v_table mdp q_table) s = None"
    if "\<forall>a. dict_get q_table (s, a) = None" for s
    using that keys by (auto simp: dict_get_None)
  have present: "\<exists>m. dict_get (extract_v_table mdp q_table) s = Some m
             \<and> m \<noteq> NaN
             \<and> (\<forall>b x. dict_get q_table (s, b) = Some x \<longrightarrow> \<not> fl_gt x m)
             \<and> ((\<exists>a. dict_get q_table (s, a) = Some m)
                \<or> (m = NegInf \<and> (\<forall>b x. dict_get q_table (s, b) = Some x \<longrightarrow> x = NaN)))"
    if "\<exists>a. dict_get q_table (s, a) \<noteq> None" for s
  proof -
    let ?row = "map snd (filter (\<lambda>e. fst (fst e) = s) q_table)"
    let ?m = "foldl py_max2 NegInf ?row"
    have row: "x \<in> set ?row \<longleftrightarrow> (\<exists>a. dict_get q_table (s, a) = Some x)" for x
      by (force simp: mem)
    from that obtain a0 x0 where x0: "dict_get q_table (s, a0) = Some x0" by auto
    then have "x0 \<in> set ?row" using row by blast
    then have ne: "?row \<noteq> []" by (metis empty_iff list.set(1))
    have empty: "dict_get [] s = None" by (simp add: dict_get_def)
    from ne have get: "dict_get (extract_v_table mdp q_table) s = Some ?m"
      by (simp add: extract_v_table_def ev_entries_get empty)
    have nn: "?m \<noteq> NaN" by (simp add: foldl_py_max2_not_nan)
    have up: "\<forall>b x. dict_get q_table (s, b) = Some x \<longrightarrow> \<not> fl_gt x ?m"
      using row foldl_py_max2_upper by blast
    have "(\<exists>a. dict_get q_table (s, a) = Some ?m)
        \<or> (?m = NegInf \<and> (\<forall>b x. dict_get q_table (s, b) = Some x \<longrightarrow> x = NaN))"
    proof (cases "?m \<in> set ?row")
      case True
      then show ?thesis using row by blast
    next
      case False
      with foldl_py_max2_mem [of NegInf ?row] have m: "?m = NegInf" by blast
      have "x = NaN" if "dict_get q_table (s, b) = Some x" for b x
      proof -
        from up that m have "\<not> fl_gt x NegInf" by metis
        then have "x = NegInf \<or> x = NaN" by (rule fl_not_gt_NegInf)
        moreover from that row have "x \<in> set ?row" by blast
        ultimately show ?thesis using False m by metis
      qed
      with m show ?thesis by blast
    qed
    with get nn up show ?thesis by blast
  qed
  from keys dist absent present show ?thesis by blast
qed

theorem extract_v_table_max_witness:
  "distinct (map fst tie_q)
   \<and> extract_v_table tie_mdp tie_q = [(A, Fin 3), (B, Fin 1)]
   \<and> fst ` set (extract_v_table tie_mdp tie_q) = {s. \<exists>a. dict_get tie_q (s, a) \<noteq> None}
   \<and> dict_get tie_q (T, Move) = None \<and> dict_get tie_q (T, Stay) = None
   \<and> dict_get (extract_v_table tie_mdp tie_q) T = None
   \<and> dict_get tie_q (B, Stay) = Some NegInf"
proof -
  have h: "distinct (map fst tie_q)" by (simp add: tie_q_def)
  have ev: "extract_v_table tie_mdp tie_q = [(A, Fin 3), (B, Fin 1)]"
    by (simp add: extract_v_table_def tie_q_def dict_get_def)
  have f: "dict_get tie_q (T, Move) = None" "dict_get tie_q (T, Stay) = None"
    "dict_get tie_q (B, Stay) = Some NegInf"
    by (simp_all add: tie_q_def dict_get_def)
  have "dict_get tie_q (T, a) = None" for a using f by (cases a) simp_all
  with extract_v_table_max [OF h, of tie_mdp]
  have t: "dict_get (extract_v_table tie_mdp tie_q) T = None" by blast
  from h ev f t extract_v_table_max [OF h, of tie_mdp] show ?thesis by blast
qed

section \<open>Action selection and schedules\<close>

text \<open>
  C6. The claim is that the candidate list handed to \<^verbatim>\<open>epsilon_greedy\<close> holds every
  best action once. Line 172 appends the best action found by the first loop and the
  second loop appends it again, as one of the actions whose value equals the best: with
  the single entry \<open>Q(A, move) = 1\<close> the list is \<open>[move, move]\<close>. With no entry for the
  state the list is \<open>[None]\<close>. The injected function here returns the list it was given.
\<close>

theorem choose_next_action_repeats_best:
  "choose_next_action (toy_mdp (round_double 0.8)) A (round_double 0.1) [((A, Move), Fin 1)]
     (\<lambda>best epsilon. best) = [Some Move, Some Move]
   \<and> choose_next_action (toy_mdp (round_double 0.8)) A (round_double 0.1) []
     (\<lambda>best epsilon. best) = [None]"
  by (simp add: choose_next_action_def fl_eq_def)

text \<open>
  C5. The claim is that \<^verbatim>\<open>custom_epsilon(n)\<close> lies in \<open>[0, 1]\<close> and
  \<^verbatim>\<open>custom_alpha(n)\<close> in \<open>(0, 1]\<close> for every \<open>n \<ge> 1\<close>. The first returns the step
  count itself, which is 2 at step 2; the second returns \<^verbatim>\<open>None\<close>, no number at all.
\<close>

theorem custom_schedules_out_of_range:
  "custom_epsilon 2 = 2 \<and> \<not> custom_epsilon 2 \<le> 1 \<and> custom_alpha 1 = None"
  by (simp add: custom_epsilon_def custom_alpha_def)

end
